theory Spec2Isabelle
  imports Main "HOL-Library.Word"
begin

section \<open>The recording bot of \<^verbatim>\<open>bot/bot.py\<close>\<close>

text \<open>
  \<^verbatim>\<open>AutoRecordBot\<close> keeps one recording session in six instance fields and changes them
  from coroutine handlers. Each handler is embedded as a function from the bot's fields to
  the new fields, the list of calls it made to its surroundings (the chat platform, the
  audio device, the file system) in program order, and whether it returned or an exception
  left it. What the surroundings answer during one handler run is the argument \<open>e\<close>: which
  calls raise, what a failed write leaves on disk, and what the clock reads. Every external
  call may raise: connecting, opening and reading the device, writing the file, sending a
  message, and the four release calls of \<^verbatim>\<open>cleanup_recording\<close>.

  Calls to \<^verbatim>\<open>logger\<close> are left out. A coroutine gives way to other handlers at an
  \<^verbatim>\<open>await\<close>. \<open>run\<close> below is the schedule in which every handler finishes before the
  next begins; \<open>overlap\<close> lets \<^verbatim>\<open>start_recording\<close> coroutines wait in
  \<^verbatim>\<open>await channel.connect()\<close> while others arrive.
\<close>

subsection \<open>Data\<close>

type_synonym chunk = "8 word list"

record member =
  mid :: nat
  m_bot :: bool

record channel =
  cid :: nat
  cname :: string
  members :: "member list"

text \<open>Channel objects compare by their id; \<^verbatim>\<open>None\<close> equals only \<^verbatim>\<open>None\<close>.\<close>

fun py_eq :: "channel option \<Rightarrow> channel option \<Rightarrow> bool" where
  "py_eq None None = True"
| "py_eq (Some a) (Some b) = (cid a = cid b)"
| "py_eq _ _ = False"

datatype voice_client = VoiceClient nat
datatype py_audio = PyAudio
datatype pa_stream = PaStream

record auto_record_bot =
  recording :: bool
  voice_client :: "voice_client option"
  current_recording_channel :: "channel option"
  frames :: "chunk list"
  audio :: "py_audio option"
  stream :: "pa_stream option"

text \<open>The fields as \<^verbatim>\<open>__init__\<close> sets them.\<close>

definition init :: auto_record_bot where
  "init = \<lparr>recording = False, voice_client = None, current_recording_channel = None,
           frames = [], audio = None, stream = None\<rparr>"

record voice_state =
  vchannel :: "channel option"

record ctx =
  author_voice :: "voice_state option"
  author_administrator :: bool

text \<open>
  The answers of the surroundings during one handler run. \<open>recordings_dir\<close> is
  \<^verbatim>\<open>RECORDINGS_DIR\<close> of \<^verbatim>\<open>config.config\<close>; \<open>now\<close> is
  \<^verbatim>\<open>datetime.now().strftime("%Y%m%d_%H%M%S")\<close>. A flag says whether the call returns
  (\<open>True\<close>) or raises. \<open>write_left\<close> is what a \<^verbatim>\<open>with wave.open(path, 'wb')\<close> block
  that raises leaves at the path: \<open>None\<close> when \<^verbatim>\<open>wave.open\<close> itself raised and the
  path is untouched, \<open>Some d\<close> when the file was created or truncated and holds the audio
  payload \<open>d\<close> (empty, or a part of the frames).
\<close>

record env =
  recordings_dir :: string
  now :: string
  connect_ok :: bool
  audio_ok :: bool
  open_ok :: bool
  announce_ok :: bool
  write_ok :: bool
  write_left :: "chunk option"
  notify_ok :: bool
  saved_ok :: bool
  errsend_ok :: bool
  stop_stream_ok :: bool
  close_ok :: bool
  terminate_ok :: bool
  disconnect_ok :: bool
  reply_ok :: bool

datatype task = RecordLoop | StopRecording

text \<open>
  The calls a handler makes. A flag is the call's outcome (\<open>True\<close>: it returned).
  \<open>WaveWrite p d ok\<close> is the \<^verbatim>\<open>with wave.open(p, 'wb')\<close> block writing the payload
  \<open>d\<close>; \<open>WaveLeft p d\<close> follows a block that raised after the file was opened, and says
  what the file holds.
\<close>

datatype effect =
    VoiceConnect nat bool
  | AudioInit bool
  | StreamOpen bool
  | StreamRead bool
  | ChannelSend nat string bool
  | CtxSend string bool
  | WaveWrite string chunk bool
  | WaveLeft string chunk
  | StreamStop bool
  | StreamClose bool
  | AudioTerminate bool
  | VoiceDisconnect bool
  | CreateTask task

datatype completion = Returned | Raised

type_synonym outcome = "completion \<times> auto_record_bot \<times> effect list"

subsection \<open>\<^verbatim>\<open>cleanup_recording\<close>\<close>

text \<open>
  The three guarded release blocks, in order. A call that raises ends the function there:
  the later releases and the six assignments are not reached.
\<close>

definition release_stream :: "env \<Rightarrow> auto_record_bot \<Rightarrow> completion \<times> effect list" where
  "release_stream e s =
     (if stream s = None then (Returned, [])
      else if \<not> stop_stream_ok e then (Raised, [StreamStop False])
      else if \<not> close_ok e then (Raised, [StreamStop True, StreamClose False])
      else (Returned, [StreamStop True, StreamClose True]))"

definition release_audio :: "env \<Rightarrow> auto_record_bot \<Rightarrow> completion \<times> effect list" where
  "release_audio e s =
     (if audio s = None then (Returned, [])
      else (if terminate_ok e then Returned else Raised, [AudioTerminate (terminate_ok e)]))"

definition release_voice :: "env \<Rightarrow> auto_record_bot \<Rightarrow> completion \<times> effect list" where
  "release_voice e s =
     (if voice_client s = None then (Returned, [])
      else (if disconnect_ok e then Returned else Raised, [VoiceDisconnect (disconnect_ok e)]))"

definition chain :: "completion \<times> effect list \<Rightarrow> completion \<times> effect list \<Rightarrow> completion \<times> effect list" where
  "chain r q =
     (case r of
        (Raised, es) \<Rightarrow> (Raised, es)
      | (Returned, es) \<Rightarrow> (case q of (c, es') \<Rightarrow> (c, es @ es')))"

definition release_calls :: "env \<Rightarrow> auto_record_bot \<Rightarrow> completion \<times> effect list" where
  "release_calls e s = chain (release_stream e s) (chain (release_audio e s) (release_voice e s))"

definition cleanup_recording :: "env \<Rightarrow> auto_record_bot \<Rightarrow> outcome" where
  "cleanup_recording e s =
     (case release_calls e s of
        (Raised, es) \<Rightarrow> (Raised, s, es)
      | (Returned, es) \<Rightarrow>
          (Returned,
           s\<lparr>stream := None, audio := None, voice_client := None,
             current_recording_channel := None, frames := [], recording := False\<rparr>,
           es))"

subsection \<open>\<^verbatim>\<open>start_recording\<close>\<close>

text \<open>
  The text of the announcement, as the bytes of its UTF-8 encoding: the literal in the
  source begins with thirteen bytes of a wrongly decoded emoji.
\<close>

definition start_message :: string where
  "start_message =
     [CHR 0xC3, CHR 0xB0, CHR 0xC5, CHR 0xB8, CHR 0xC5, CHR 0xBD, CHR 0xE2, CHR 0x84, CHR 0xA2,
      CHR 0xC3, CHR 0xAF, CHR 0xC2, CHR 0xB8]
     @ '' Recording started - 3 or more members detected in channel''"

text \<open>The body of the \<^verbatim>\<open>try\<close> block, up to the first call that raises.\<close>

definition start_recording_try :: "env \<Rightarrow> channel \<Rightarrow> auto_record_bot \<Rightarrow> outcome" where
  "start_recording_try e ch s =
     (if \<not> connect_ok e then (Raised, s, [VoiceConnect (cid ch) False])
      else
        let s1 = s\<lparr>voice_client := Some (VoiceClient (cid ch)),
                   current_recording_channel := Some ch\<rparr>
        in if \<not> audio_ok e then (Raised, s1, [VoiceConnect (cid ch) True, AudioInit False])
        else
          let s2 = s1\<lparr>audio := Some PyAudio\<rparr>
          in if \<not> open_ok e
             then (Raised, s2, [VoiceConnect (cid ch) True, AudioInit True, StreamOpen False])
             else
               (Returned, s2\<lparr>stream := Some PaStream, recording := True, frames := []\<rparr>,
                [VoiceConnect (cid ch) True, AudioInit True, StreamOpen True,
                 ChannelSend (cid ch) start_message (announce_ok e),
                 CreateTask RecordLoop]))"

text \<open>
  Everything after the guard: the \<^verbatim>\<open>try\<close> block and, when it raised, the \<^verbatim>\<open>except\<close>
  block, whose \<^verbatim>\<open>cleanup_recording\<close> may raise in turn. The coroutine's first
  \<^verbatim>\<open>await\<close> is the connection attempt this begins with.
\<close>

definition start_recording_resume :: "env \<Rightarrow> channel \<Rightarrow> auto_record_bot \<Rightarrow> outcome" where
  "start_recording_resume e ch s =
     (case start_recording_try e ch s of
        (Returned, s', es) \<Rightarrow> (Returned, s', es)
      | (Raised, s', es) \<Rightarrow>
          (case cleanup_recording e s' of (c, s'', es') \<Rightarrow> (c, s'', es @ es')))"

definition start_recording :: "env \<Rightarrow> channel \<Rightarrow> auto_record_bot \<Rightarrow> outcome" where
  "start_recording e ch s =
     (if recording s then (Returned, s, []) else start_recording_resume e ch s)"

subsection \<open>\<^verbatim>\<open>stop_recording\<close>\<close>

definition stop_message :: "bool \<Rightarrow> bool \<Rightarrow> string" where
  "stop_message auto_stopped error =
     (if auto_stopped then ''Recording stopped - less than 3 members in channel''
      else if error then ''Recording stopped due to an error''
      else ''Recording stopped manually'')"

definition filename :: "env \<Rightarrow> string" where
  "filename e = ''nouncil_recording_'' @ now e"

text \<open>\<^verbatim>\<open>os.path.join\<close> of a directory and a relative name (POSIX).\<close>

definition path_join :: "string \<Rightarrow> string \<Rightarrow> string" where
  "path_join a b = (if a = [] \<or> last a = CHR ''/'' then a @ b else a @ ''/'' @ b)"

definition wav_path :: "env \<Rightarrow> string" where
  "wav_path e = path_join (recordings_dir e) (filename e @ ''.wav'')"

text \<open>\<^verbatim>\<open>await channel.send(text)\<close>; on \<^verbatim>\<open>None\<close> the attribute lookup raises.\<close>

fun channel_send :: "channel option \<Rightarrow> string \<Rightarrow> bool \<Rightarrow> completion \<times> effect list" where
  "channel_send None text ok = (Raised, [])"
| "channel_send (Some ch) text ok =
     (if ok then Returned else Raised, [ChannelSend (cid ch) text ok])"

text \<open>
  What a \<^verbatim>\<open>with wave.open\<close> block that raised leaves at the path. When the file system
  is sound and the block raised at \<^verbatim>\<open>self.audio.get_sample_size\<close> because
  \<^verbatim>\<open>self.audio\<close> is \<^verbatim>\<open>None\<close>, the file has been opened and nothing written to it.
\<close>

definition left_behind :: "env \<Rightarrow> chunk option" where
  "left_behind e = (if write_ok e then Some [] else write_left e)"

text \<open>
  The \<^verbatim>\<open>try\<close> block. The \<^verbatim>\<open>with wave.open\<close> block raises when the file system does,
  and when \<^verbatim>\<open>self.audio\<close> is \<^verbatim>\<open>None\<close>.
\<close>

definition stop_recording_try :: "env \<Rightarrow> bool \<Rightarrow> bool \<Rightarrow> auto_record_bot \<Rightarrow> completion \<times> effect list" where
  "stop_recording_try e auto_stopped error s =
     (if frames s = [] then (Returned, [])
      else
        let ok = (write_ok e \<and> audio s \<noteq> None);
            w = WaveWrite (wav_path e) (concat (frames s)) ok
        in if \<not> ok
           then (Raised,
                 w # (case left_behind e of
                        None \<Rightarrow> []
                      | Some d \<Rightarrow> [WaveLeft (wav_path e) d]))
           else case channel_send (current_recording_channel s)
                       (stop_message auto_stopped error) (notify_ok e) of
                  (Raised, es) \<Rightarrow> (Raised, w # es)
                | (Returned, es) \<Rightarrow>
                    (case channel_send (current_recording_channel s)
                            (''Recording saved as: '' @ filename e) (saved_ok e) of
                       (c, es') \<Rightarrow> (c, w # es @ es')))"

text \<open>The \<^verbatim>\<open>except\<close> block.\<close>

definition stop_recording_except :: "env \<Rightarrow> auto_record_bot \<Rightarrow> completion \<times> effect list" where
  "stop_recording_except e s =
     (case current_recording_channel s of
        None \<Rightarrow> (Returned, [])
      | Some ch \<Rightarrow> channel_send (Some ch) ''Error saving recording'' (errsend_ok e))"

text \<open>
  The \<^verbatim>\<open>finally\<close> block runs after the other two on every path. The result is
  \<open>Raised\<close> when the \<^verbatim>\<open>except\<close> block or the \<^verbatim>\<open>finally\<close> block raised.
\<close>

definition stop_recording :: "env \<Rightarrow> bool \<Rightarrow> bool \<Rightarrow> auto_record_bot \<Rightarrow> outcome" where
  "stop_recording e auto_stopped error s =
     (if \<not> recording s then (Returned, s, [])
      else
        let s1 = s\<lparr>recording := False\<rparr>
        in case stop_recording_try e auto_stopped error s1 of
             (c1, es1) \<Rightarrow>
               (case (if c1 = Raised then stop_recording_except e s1 else (Returned, [])) of
                  (c2, es2) \<Rightarrow>
                    (case cleanup_recording e s1 of
                       (c3, s2, es3) \<Rightarrow>
                         (if c2 = Raised \<or> c3 = Raised then Raised else Returned,
                          s2, es1 @ es2 @ es3))))"

subsection \<open>\<^verbatim>\<open>record_loop\<close>, one iteration\<close>

text \<open>
  \<open>rd\<close> is what \<^verbatim>\<open>self.stream.read(CHUNK)\<close> gives: a chunk, or \<open>None\<close> when it raises.
  With the flag down the loop has ended and nothing happens.
\<close>

definition record_loop_iter :: "env \<Rightarrow> chunk option \<Rightarrow> auto_record_bot \<Rightarrow> outcome" where
  "record_loop_iter e rd s =
     (if \<not> recording s then (Returned, s, [])
      else case stream s of
             None \<Rightarrow> stop_recording e False True s
           | Some _ \<Rightarrow>
               (case rd of
                  Some data \<Rightarrow> (Returned, s\<lparr>frames := frames s @ [data]\<rparr>, [StreamRead True])
                | None \<Rightarrow>
                    (case stop_recording e False True s of
                       (c, s', es) \<Rightarrow> (c, s', StreamRead False # es))))"

subsection \<open>\<^verbatim>\<open>check_channel\<close> and the event handlers\<close>

definition member_count :: "channel \<Rightarrow> nat" where
  "member_count ch = length (filter (\<lambda>m. \<not> m_bot m) (members ch))"

definition check_channel :: "env \<Rightarrow> channel \<Rightarrow> auto_record_bot \<Rightarrow> outcome" where
  "check_channel e ch s =
     (if member_count ch \<ge> 3 \<and> \<not> recording s
      then start_recording e ch s
      else if member_count ch < 3 \<and> recording s
              \<and> py_eq (current_recording_channel s) (Some ch)
      then stop_recording e True False s
      else (Returned, s, []))"

text \<open>\<^verbatim>\<open>if v and v.channel: await self.check_channel(v.channel)\<close>\<close>

definition check_voice_state :: "env \<Rightarrow> voice_state option \<Rightarrow> auto_record_bot \<Rightarrow> outcome" where
  "check_voice_state e v s =
     (case v of
        None \<Rightarrow> (Returned, s, [])
      | Some vs \<Rightarrow>
          (case vchannel vs of
             None \<Rightarrow> (Returned, s, [])
           | Some ch \<Rightarrow> check_channel e ch s))"

text \<open>Running \<open>g\<close> after \<open>f\<close>, unless \<open>f\<close> raised.\<close>

definition and_then :: "outcome \<Rightarrow> (auto_record_bot \<Rightarrow> outcome) \<Rightarrow> outcome" where
  "and_then r g =
     (case r of
        (Raised, s, es) \<Rightarrow> (Raised, s, es)
      | (Returned, s, es) \<Rightarrow> (case g s of (c, s', es') \<Rightarrow> (c, s', es @ es')))"

definition on_voice_state_update ::
  "env \<Rightarrow> env \<Rightarrow> voice_state option \<Rightarrow> voice_state option \<Rightarrow> auto_record_bot \<Rightarrow> outcome" where
  "on_voice_state_update e1 e2 before after s =
     and_then (check_voice_state e1 before s) (check_voice_state e2 after)"

fun on_ready :: "(env \<times> channel) list \<Rightarrow> auto_record_bot \<Rightarrow> outcome" where
  "on_ready [] s = (Returned, s, [])"
| "on_ready ((e, vc) # rest) s = and_then (check_channel e vc s) (on_ready rest)"

subsection \<open>The commands\<close>

definition ctx_send :: "env \<Rightarrow> string \<Rightarrow> auto_record_bot \<Rightarrow> outcome" where
  "ctx_send e text s = (if reply_ok e then Returned else Raised, s, [CtxSend text (reply_ok e)])"

text \<open>\<^verbatim>\<open>ctx.author.voice and ctx.author.voice.channel == self.current_recording_channel\<close>\<close>

definition in_recording_channel :: "ctx \<Rightarrow> auto_record_bot \<Rightarrow> bool" where
  "in_recording_channel c s =
     (case author_voice c of
        None \<Rightarrow> False
      | Some v \<Rightarrow> py_eq (vchannel v) (current_recording_channel s))"

definition stop :: "env \<Rightarrow> ctx \<Rightarrow> auto_record_bot \<Rightarrow> outcome" where
  "stop e c s =
     (if \<not> recording s then ctx_send e ''Not currently recording!'' s
      else if in_recording_channel c s
      then and_then (stop_recording e False False s) (ctx_send e ''Recording stopped by command'')
      else ctx_send e ''You must be in the recording channel to stop it'' s)"

definition force_stop :: "env \<Rightarrow> ctx \<Rightarrow> auto_record_bot \<Rightarrow> outcome" where
  "force_stop e c s =
     (if \<not> recording s then ctx_send e ''Not currently recording!'' s
      else if author_administrator c
      then and_then (stop_recording e False False s) (ctx_send e ''Recording force stopped by admin'')
      else ctx_send e ''Only administrators can force stop recordings'' s)"

subsection \<open>\<^verbatim>\<open>cog_unload\<close>\<close>

text \<open>
  \<^verbatim>\<open>asyncio.create_task(self.stop_recording())\<close> schedules the coroutine and returns; the
  scheduled call has both flags at their defaults.
\<close>

definition cog_unload :: "auto_record_bot \<Rightarrow> auto_record_bot \<times> effect list" where
  "cog_unload s = (s, if recording s then [CreateTask StopRecording] else [])"

subsection \<open>Runs without overlap\<close>

text \<open>
  What can happen to the bot, one handler run at a time: the platform's two events, one
  iteration of the record loop, the two commands, and direct calls of the three session
  operations. An exception leaving a handler ends that handler only. In \<open>run\<close> each
  handler has finished when the next begins.
\<close>

datatype event =
    Ready "(env \<times> channel) list"
  | VoiceStateUpdate env "voice_state option" "voice_state option"
  | CheckChannel channel
  | StartRecordingCall channel
  | StopRecordingCall bool bool
  | LoopIter "chunk option"
  | StopCommand ctx
  | ForceStopCommand ctx
  | CogUnload

fun step :: "env \<Rightarrow> event \<Rightarrow> auto_record_bot \<Rightarrow> outcome" where
  "step e (Ready vcs) s = on_ready vcs s"
| "step e (VoiceStateUpdate e2 before after) s = on_voice_state_update e e2 before after s"
| "step e (CheckChannel ch) s = check_channel e ch s"
| "step e (StartRecordingCall ch) s = start_recording e ch s"
| "step e (StopRecordingCall auto_stopped error) s = stop_recording e auto_stopped error s"
| "step e (LoopIter rd) s = record_loop_iter e rd s"
| "step e (StopCommand c) s = stop e c s"
| "step e (ForceStopCommand c) s = force_stop e c s"
| "step e CogUnload s = (case cog_unload s of (s', es) \<Rightarrow> (Returned, s', es))"

fun run :: "(env \<times> event) list \<Rightarrow> auto_record_bot \<times> effect list \<Rightarrow> auto_record_bot \<times> effect list" where
  "run [] w = w"
| "run ((e, ev) # rest) (s, tr) =
     (case step e ev s of (c, s', es) \<Rightarrow> run rest (s', tr @ es))"

subsection \<open>Overlapping starts\<close>

text \<open>
  \<^verbatim>\<open>start_recording\<close> tests \<^verbatim>\<open>self.recording\<close>, then waits in
  \<^verbatim>\<open>await channel.connect()\<close>, and raises the flag only after the connection and the
  stream are there; nothing keeps another handler from running during the wait. A turn of
  the event loop is either a start intent that arrives and runs up to the wait (or returns
  at the guard), or a waiting coroutine that wakes, the connection attempt being over, and
  runs on to its end. The waiting coroutines are kept by their channel.
\<close>

datatype turn = Arrive channel | Wake env channel

fun overlap ::
  "turn list \<Rightarrow> (auto_record_bot \<times> channel list) \<times> effect list
     \<Rightarrow> (auto_record_bot \<times> channel list) \<times> effect list" where
  "overlap [] w = w"
| "overlap (Arrive ch # rest) ((s, waiting), tr) =
     overlap rest ((s, if recording s then waiting else waiting @ [ch]), tr)"
| "overlap (Wake e ch # rest) ((s, waiting), tr) =
     (if ch \<in> set waiting
      then case start_recording_resume e ch s of
             (c, s', es) \<Rightarrow> overlap rest ((s', remove1 ch waiting), tr @ es)
      else overlap rest ((s, waiting), tr))"

subsection \<open>Reading a trace\<close>

fun is_wave_write :: "effect \<Rightarrow> bool" where
  "is_wave_write (WaveWrite p d ok) = True"
| "is_wave_write _ = False"

fun is_channel_send :: "effect \<Rightarrow> bool" where
  "is_channel_send (ChannelSend c text ok) = True"
| "is_channel_send _ = False"

definition wave_writes :: "effect list \<Rightarrow> effect list" where
  "wave_writes es = filter is_wave_write es"

definition channel_sends :: "effect list \<Rightarrow> effect list" where
  "channel_sends es = filter is_channel_send es"

text \<open>
  The recordings directory after a trace: a write that returned puts its payload at its
  path; one that raised after opening the file leaves there what \<open>WaveLeft\<close> says.
\<close>

fun store :: "effect \<Rightarrow> (string \<rightharpoonup> chunk) \<Rightarrow> (string \<rightharpoonup> chunk)" where
  "store (WaveWrite p d True) m = m(p \<mapsto> d)"
| "store (WaveLeft p d) m = m(p \<mapsto> d)"
| "store _ m = m"

definition files_after :: "effect list \<Rightarrow> (string \<rightharpoonup> chunk) \<Rightarrow> (string \<rightharpoonup> chunk)" where
  "files_after es m = fold store es m"

text \<open>
  Open capture streams and live voice connections along a trace: how much each call adds,
  and whether the running count, from \<open>c\<close> on, is 0 or 1 at every point of the trace.
\<close>

fun stream_delta :: "effect \<Rightarrow> int" where
  "stream_delta (StreamOpen True) = 1"
| "stream_delta (StreamClose True) = - 1"
| "stream_delta _ = 0"

fun voice_delta :: "effect \<Rightarrow> int" where
  "voice_delta (VoiceConnect c True) = 1"
| "voice_delta (VoiceDisconnect True) = - 1"
| "voice_delta _ = 0"

fun at_most_one :: "(effect \<Rightarrow> int) \<Rightarrow> int \<Rightarrow> effect list \<Rightarrow> bool" where
  "at_most_one d c [] = (0 \<le> c \<and> c \<le> 1)"
| "at_most_one d c (x # xs) = (0 \<le> c \<and> c \<le> 1 \<and> at_most_one d (c + d x) xs)"

text \<open>A whole session on a channel, with the frames buffered so far.\<close>

definition active_at :: "channel \<Rightarrow> chunk list \<Rightarrow> auto_record_bot" where
  "active_at ch fs =
     \<lparr>recording = True, voice_client = Some (VoiceClient (cid ch)),
      current_recording_channel = Some ch, frames = fs,
      audio = Some PyAudio, stream = Some PaStream\<rparr>"

subsection \<open>The membership rule in the specification's words\<close>

datatype stop_reason = Manual | AutoQuorumLoss | ForcedByAdmin | Error

datatype intent = StartIntent channel | StopIntent channel stop_reason | NoIntent

text \<open>
  ``If count \<open>\<ge>\<close> threshold and no session is active, emit StartIntent(C). If count \<open><\<close>
  threshold and a session is active for C, emit StopIntent(C, AutoQuorumLoss). All other
  counts/states: no intent.'' \<open>session\<close> is the channel of the active session, if any.
\<close>

definition quorum_decision :: "nat \<Rightarrow> nat \<Rightarrow> channel option \<Rightarrow> channel \<Rightarrow> intent" where
  "quorum_decision threshold n session ch =
     (case session of
        None \<Rightarrow> if n \<ge> threshold then StartIntent ch else NoIntent
      | Some a \<Rightarrow> if n < threshold \<and> cid a = cid ch then StopIntent ch AutoQuorumLoss else NoIntent)"

text \<open>The active session's channel as the bot's fields give it.\<close>

definition session_of :: "auto_record_bot \<Rightarrow> channel option" where
  "session_of s = (if recording s then current_recording_channel s else None)"

text \<open>The flags with which the code's call sites pass each reason to \<^verbatim>\<open>stop_recording\<close>.\<close>

fun reason_flags :: "stop_reason \<Rightarrow> bool \<times> bool" where
  "reason_flags Manual = (False, False)"
| "reason_flags AutoQuorumLoss = (True, False)"
| "reason_flags ForcedByAdmin = (False, False)"
| "reason_flags Error = (False, True)"

fun apply_intent :: "env \<Rightarrow> intent \<Rightarrow> auto_record_bot \<Rightarrow> outcome" where
  "apply_intent e (StartIntent ch) s = start_recording e ch s"
| "apply_intent e (StopIntent ch r) s =
     (case reason_flags r of (auto_stopped, error) \<Rightarrow> stop_recording e auto_stopped error s)"
| "apply_intent e NoIntent s = (Returned, s, [])"

text \<open>The decisions taken at the \<open>CheckChannel\<close> events of a run.\<close>

fun decisions :: "(env \<times> event) list \<Rightarrow> auto_record_bot \<Rightarrow> intent list" where
  "decisions [] s = []"
| "decisions ((e, ev) # rest) s =
     (case ev of
        CheckChannel ch \<Rightarrow> [quorum_decision 3 (member_count ch) (session_of s) ch]
      | _ \<Rightarrow> [])
     @ decisions rest (fst (snd (step e ev s)))"

subsection \<open>Scenarios\<close>

definition membership_events :: "channel \<Rightarrow> (env \<times> member list) list \<Rightarrow> (env \<times> event) list" where
  "membership_events ch xs = map (\<lambda>(e, ms). (e, CheckChannel (ch\<lparr>members := ms\<rparr>))) xs"

definition captured :: "env \<Rightarrow> chunk list \<Rightarrow> (env \<times> event) list" where
  "captured e fs = map (\<lambda>d. (e, LoopIter (Some d))) fs"

definition humans :: "member list \<Rightarrow> nat" where
  "humans ms = length (filter (\<lambda>m. \<not> m_bot m) ms)"

definition start_ok :: "env \<Rightarrow> bool" where
  "start_ok e = (connect_ok e \<and> audio_ok e \<and> open_ok e)"

text \<open>Every call returns.\<close>

definition nominal :: env where
  "nominal = \<lparr>recordings_dir = ''recordings'', now = ''20240101_120000'',
              connect_ok = True, audio_ok = True, open_ok = True, announce_ok = True,
              write_ok = True, write_left = None, notify_ok = True, saved_ok = True,
              errsend_ok = True, stop_stream_ok = True, close_ok = True,
              terminate_ok = True, disconnect_ok = True, reply_ok = True\<rparr>"

definition person :: "nat \<Rightarrow> member" where
  "person i = \<lparr>mid = i, m_bot = False\<rparr>"

definition bot_in_lounge :: member where
  "bot_in_lounge = \<lparr>mid = 99, m_bot = True\<rparr>"

definition lounge :: channel where
  "lounge = \<lparr>cid = 7, cname = ''lounge'', members = []\<rparr>"

definition hall :: channel where
  "hall = \<lparr>cid = 8, cname = ''hall'', members = [person 1, person 2, person 3]\<rparr>"

text \<open>
  \<^verbatim>\<open>wave.open\<close> raises, and so does the send of the \<^verbatim>\<open>except\<close> block; the file
  is opened and the block raises before any frame is written; \<^verbatim>\<open>stop_stream\<close> raises.
\<close>

definition failing_disk :: env where
  "failing_disk = nominal\<lparr>write_ok := False, errsend_ok := False\<rparr>"

definition truncating_disk :: env where
  "truncating_disk = nominal\<lparr>write_ok := False, write_left := Some []\<rparr>"

definition stuck_stream :: env where
  "stuck_stream = nominal\<lparr>stop_stream_ok := False\<rparr>"

definition insider :: ctx where
  "insider = \<lparr>author_voice = Some \<lparr>vchannel = Some lounge\<rparr>, author_administrator = True\<rparr>"

definition outsider :: ctx where
  "outsider = \<lparr>author_voice = Some \<lparr>vchannel = Some hall\<rparr>, author_administrator = False\<rparr>"

text \<open>The calls of a start that succeeds.\<close>

definition start_calls :: "env \<Rightarrow> channel \<Rightarrow> effect list" where
  "start_calls e ch =
     [VoiceConnect (cid ch) True, AudioInit True, StreamOpen True,
      ChannelSend (cid ch) start_message (announce_ok e), CreateTask RecordLoop]"

text \<open>
  Six membership events on one channel, with the chunks the record loop reads after the
  third and after the fifth.
\<close>

definition scenario ::
  "channel \<Rightarrow> (env \<times> member list) list \<Rightarrow> env \<Rightarrow> chunk list \<Rightarrow> chunk list \<Rightarrow> (env \<times> event) list" where
  "scenario ch xs e0 fs1 fs2 =
     membership_events ch (take 3 xs) @ captured e0 fs1 @
     membership_events ch (take 2 (drop 3 xs)) @ captured e0 fs2 @
     membership_events ch (drop 5 xs)"

text \<open>The occupant counts 1, 2, 3, 2, 4, 1, every call succeeding, the clock standing still.\<close>

definition six_nominal :: "(env \<times> member list) list" where
  "six_nominal =
     [(nominal, [person 1]),
      (nominal, [person 1, person 2]),
      (nominal, [person 1, person 2, person 3]),
      (nominal, [person 1, person 2]),
      (nominal, [person 1, person 2, person 3, person 4]),
      (nominal, [person 1])]"

definition six_events :: "(env \<times> event) list" where
  "six_events = membership_events lounge six_nominal"

text \<open>The same, the sixth event five minutes after the others.\<close>

definition six_timed :: "(env \<times> member list) list" where
  "six_timed =
     [(nominal, [person 1]),
      (nominal, [person 1, person 2]),
      (nominal, [person 1, person 2, person 3]),
      (nominal, [person 1, person 2]),
      (nominal, [person 1, person 2, person 3, person 4]),
      (nominal\<lparr>now := ''20240101_120500''\<rparr>, [person 1])]"

subsection \<open>\<^verbatim>\<open>main.py\<close>, leaving \<^verbatim>\<open>main\<close>\<close>

text \<open>
  Once \<^verbatim>\<open>await bot.start(DISCORD_TOKEN)\<close> has ended, the \<^verbatim>\<open>except\<close> and \<^verbatim>\<open>finally\<close>
  blocks of \<^verbatim>\<open>main\<close> and the handlers around \<^verbatim>\<open>asyncio.run\<close> log and do nothing else:
  no field of the bot is read or written, no call is made.
\<close>

definition main_exit :: "auto_record_bot \<Rightarrow> auto_record_bot \<times> effect list" where
  "main_exit s = (s, [])"

subsection \<open>When the release calls return\<close>

definition releases_return :: "env \<Rightarrow> auto_record_bot \<Rightarrow> bool" where
  "releases_return e s =
     ((stream s \<noteq> None \<longrightarrow> stop_stream_ok e \<and> close_ok e)
      \<and> (audio s \<noteq> None \<longrightarrow> terminate_ok e)
      \<and> (voice_client s \<noteq> None \<longrightarrow> disconnect_ok e))"

definition released :: "auto_record_bot \<Rightarrow> effect list" where
  "released s =
     (if stream s \<noteq> None then [StreamStop True, StreamClose True] else []) @
     (if audio s \<noteq> None then [AudioTerminate True] else []) @
     (if voice_client s \<noteq> None then [VoiceDisconnect True] else [])"

section \<open>Lemmas about the operations\<close>

lemmas example_defs =
  nominal_def failing_disk_def truncating_disk_def stuck_stream_def insider_def outsider_def
  lounge_def hall_def person_def bot_in_lounge_def active_at_def init_def

lemmas operation_defs =
  stop_recording_def stop_recording_try_def stop_recording_except_def cleanup_recording_def
  release_calls_def release_stream_def release_audio_def release_voice_def chain_def
  left_behind_def start_recording_def start_recording_resume_def start_recording_try_def
  check_channel_def member_count_def record_loop_iter_def stop_def force_stop_def
  ctx_send_def and_then_def in_recording_channel_def stop_message_def wav_path_def
  path_join_def filename_def cog_unload_def

lemmas scenario_defs =
  six_events_def six_nominal_def six_timed_def scenario_def membership_events_def captured_def
  quorum_decision_def session_of_def humans_def start_ok_def start_calls_def
  wave_writes_def files_after_def channel_sends_def

subsection \<open>The release calls\<close>

lemma release_calls_return:
  "releases_return e s \<Longrightarrow> release_calls e s = (Returned, released s)"
  by (auto simp: releases_return_def released_def release_calls_def release_stream_def
      release_audio_def release_voice_def chain_def)

lemma cleanup_recording_return:
  "releases_return e s \<Longrightarrow> cleanup_recording e s = (Returned, init, released s)"
  by (simp add: cleanup_recording_def release_calls_return init_def)


lemma cleanup_recording_shape:
  "\<exists>c es. cleanup_recording e s = (c, if c = Returned then init else s, es)"
proof -
  obtain c es where r: "release_calls e s = (c, es)" by (cases "release_calls e s")
  show ?thesis by (cases c) (simp_all add: cleanup_recording_def r init_def)
qed

lemma cleanup_keeps_flag_down:
  "\<not> recording s \<Longrightarrow> \<not> recording (fst (snd (cleanup_recording e s)))"
proof -
  assume f: "\<not> recording s"
  obtain c es where "cleanup_recording e s = (c, if c = Returned then init else s, es)"
    using cleanup_recording_shape by blast
  then show ?thesis using f by (simp add: init_def)
qed

lemma release_calls_kinds:
  "x \<in> set (snd (release_calls e s)) \<Longrightarrow>
   \<not> is_wave_write x \<and> \<not> is_channel_send x \<and> store x m = m"
  by (auto simp: release_calls_def release_stream_def release_audio_def release_voice_def
      chain_def split: if_splits)

lemma cleanup_effects: "snd (snd (cleanup_recording e s)) = snd (release_calls e s)"
  by (cases "release_calls e s" rule: prod.exhaust; cases "fst (release_calls e s)")
     (auto simp: cleanup_recording_def)

lemma released_flag: "released (s\<lparr>recording := b\<rparr>) = released s"
  by (simp add: released_def)

lemma releases_return_flag: "releases_return e (s\<lparr>recording := b\<rparr>) = releases_return e s"
  by (simp add: releases_return_def)


subsection \<open>\<^verbatim>\<open>stop_recording\<close>\<close>

lemma stop_recording_idle: "\<not> recording s \<Longrightarrow> stop_recording e a err s = (Returned, s, [])"
  by (simp add: stop_recording_def)

lemma stop_recording_parts:
  assumes "recording s"
  obtains c1 es1 c2 es2 c3 s2 es3 where
    "stop_recording_try e a err (s\<lparr>recording := False\<rparr>) = (c1, es1)"
    and "(if c1 = Raised then stop_recording_except e (s\<lparr>recording := False\<rparr>)
          else (Returned, [])) = (c2, es2)"
    and "cleanup_recording e (s\<lparr>recording := False\<rparr>) = (c3, s2, es3)"
    and "stop_recording e a err s
         = (if c2 = Raised \<or> c3 = Raised then Raised else Returned, s2, es1 @ es2 @ es3)"
proof -
  obtain c1 es1 where t: "stop_recording_try e a err (s\<lparr>recording := False\<rparr>) = (c1, es1)"
    by (cases "stop_recording_try e a err (s\<lparr>recording := False\<rparr>)")
  obtain c2 es2 where x:
    "(if c1 = Raised then stop_recording_except e (s\<lparr>recording := False\<rparr>) else (Returned, []))
       = (c2, es2)"
    by (cases "if c1 = Raised then stop_recording_except e (s\<lparr>recording := False\<rparr>)
               else (Returned, [])")
  obtain c3 s2 es3 where c: "cleanup_recording e (s\<lparr>recording := False\<rparr>) = (c3, s2, es3)"
    by (cases "cleanup_recording e (s\<lparr>recording := False\<rparr>)")
  have "stop_recording e a err s
         = (if c2 = Raised \<or> c3 = Raised then Raised else Returned, s2, es1 @ es2 @ es3)"
    using assms t x c by (simp add: stop_recording_def)
  with t x c show ?thesis by (rule that)
qed

lemma stop_recording_flag_down:
  "\<not> recording (fst (snd (stop_recording e a err s)))"
proof (cases "recording s")
  case False
  then show ?thesis by (simp add: stop_recording_idle)
next
  case True
  then obtain c1 es1 c2 es2 c3 s2 es3 where
    c: "cleanup_recording e (s\<lparr>recording := False\<rparr>) = (c3, s2, es3)"
    and r: "stop_recording e a err s
         = (if c2 = Raised \<or> c3 = Raised then Raised else Returned, s2, es1 @ es2 @ es3)"
    by (rule stop_recording_parts)
  have "\<not> recording (fst (snd (cleanup_recording e (s\<lparr>recording := False\<rparr>))))"
    by (rule cleanup_keeps_flag_down) simp
  then show ?thesis using c r by simp
qed

lemma stop_recording_cleanup_last:
  assumes "recording s"
  shows "\<exists>c pre. stop_recording e a err s
           = (c, fst (snd (cleanup_recording e (s\<lparr>recording := False\<rparr>))),
              pre @ snd (snd (cleanup_recording e (s\<lparr>recording := False\<rparr>))))"
proof -
  from assms obtain c1 es1 c2 es2 c3 s2 es3 where
    c: "cleanup_recording e (s\<lparr>recording := False\<rparr>) = (c3, s2, es3)"
    and r: "stop_recording e a err s
         = (if c2 = Raised \<or> c3 = Raised then Raised else Returned, s2, es1 @ es2 @ es3)"
    by (rule stop_recording_parts)
  have "stop_recording e a err s
        = (if c2 = Raised \<or> c3 = Raised then Raised else Returned, s2, (es1 @ es2) @ es3)"
    using r by simp
  then show ?thesis unfolding c by (simp only: fst_conv snd_conv) blast
qed

lemma stop_recording_return:
  assumes "recording s" and "releases_return e s"
  shows "\<exists>c pre. stop_recording e a err s = (c, init, pre @ released s)"
  using stop_recording_cleanup_last [OF assms(1), of e a err] assms(2)
  by (simp add: cleanup_recording_return releases_return_flag released_flag)

lemma stop_recording_state:
  "recording s \<Longrightarrow> releases_return e s \<Longrightarrow> fst (snd (stop_recording e a err s)) = init"
  using stop_recording_return [of s e a err] by auto

lemma wave_writes_append: "wave_writes (xs @ ys) = wave_writes xs @ wave_writes ys"
  by (simp add: wave_writes_def)

lemma wave_writes_cleanup: "wave_writes (snd (snd (cleanup_recording e s))) = []"
  using release_calls_kinds [of _ e s]
  by (auto simp: cleanup_effects wave_writes_def filter_empty_conv)

lemma wave_writes_except: "wave_writes (snd (stop_recording_except e s)) = []"
  by (simp add: stop_recording_except_def wave_writes_def split: option.splits)

lemma wave_writes_try:
  "wave_writes (snd (stop_recording_try e a err s)) =
     (if frames s = [] then []
      else [WaveWrite (wav_path e) (concat (frames s)) (write_ok e \<and> audio s \<noteq> None)])"
  by (cases "current_recording_channel s")
     (auto simp: stop_recording_try_def wave_writes_def Let_def
           split: prod.splits completion.splits option.splits)

lemma wave_writes_stop:
  assumes "recording s"
  shows "wave_writes (snd (snd (stop_recording e a err s))) =
     (if frames s = [] then []
      else [WaveWrite (wav_path e) (concat (frames s)) (write_ok e \<and> audio s \<noteq> None)])"
proof -
  from assms obtain c1 es1 c2 es2 c3 s2 es3 where
    t: "stop_recording_try e a err (s\<lparr>recording := False\<rparr>) = (c1, es1)"
    and x: "(if c1 = Raised then stop_recording_except e (s\<lparr>recording := False\<rparr>)
          else (Returned, [])) = (c2, es2)"
    and c: "cleanup_recording e (s\<lparr>recording := False\<rparr>) = (c3, s2, es3)"
    and r: "stop_recording e a err s
         = (if c2 = Raised \<or> c3 = Raised then Raised else Returned, s2, es1 @ es2 @ es3)"
    by (rule stop_recording_parts)
  have w1: "wave_writes es1 =
     (if frames s = [] then []
      else [WaveWrite (wav_path e) (concat (frames s)) (write_ok e \<and> audio s \<noteq> None)])"
    using wave_writes_try [of e a err "s\<lparr>recording := False\<rparr>"] t by simp
  have w2: "wave_writes es2 = []"
    using wave_writes_except [of e "s\<lparr>recording := False\<rparr>"] x
    by (cases "c1 = Raised") (auto simp: wave_writes_def)
  have w3: "wave_writes es3 = []"
    using wave_writes_cleanup [of e "s\<lparr>recording := False\<rparr>"] c by simp
  show ?thesis
    unfolding r by (simp add: wave_writes_append w1 w2 w3)
qed

lemma channel_sends_append: "channel_sends (xs @ ys) = channel_sends xs @ channel_sends ys"
  by (simp add: channel_sends_def)

lemma channel_sends_cleanup: "channel_sends (snd (snd (cleanup_recording e s))) = []"
  using release_calls_kinds [of _ e s]
  by (auto simp: cleanup_effects channel_sends_def filter_empty_conv)

lemma channel_sends_stop:
  assumes "recording s"
  shows "channel_sends (snd (snd (stop_recording e a err s))) =
     (if frames s = [] then []
      else case current_recording_channel s of
             None \<Rightarrow> []
           | Some rc \<Rightarrow>
               if \<not> (write_ok e \<and> audio s \<noteq> None)
               then [ChannelSend (cid rc) ''Error saving recording'' (errsend_ok e)]
               else ChannelSend (cid rc) (stop_message a err) (notify_ok e) #
                    (if \<not> notify_ok e
                     then [ChannelSend (cid rc) ''Error saving recording'' (errsend_ok e)]
                     else ChannelSend (cid rc) (''Recording saved as: '' @ filename e) (saved_ok e) #
                          (if saved_ok e then []
                           else [ChannelSend (cid rc) ''Error saving recording'' (errsend_ok e)])))"
proof -
  from assms obtain c1 es1 c2 es2 c3 s2 es3 where
    t: "stop_recording_try e a err (s\<lparr>recording := False\<rparr>) = (c1, es1)"
    and x: "(if c1 = Raised then stop_recording_except e (s\<lparr>recording := False\<rparr>)
          else (Returned, [])) = (c2, es2)"
    and c: "cleanup_recording e (s\<lparr>recording := False\<rparr>) = (c3, s2, es3)"
    and r: "stop_recording e a err s
         = (if c2 = Raised \<or> c3 = Raised then Raised else Returned, s2, es1 @ es2 @ es3)"
    by (rule stop_recording_parts)
  have w3: "channel_sends es3 = []"
    using channel_sends_cleanup [of e "s\<lparr>recording := False\<rparr>"] c by simp
  have "channel_sends (es1 @ es2) =
     (if frames s = [] then []
      else case current_recording_channel s of
             None \<Rightarrow> []
           | Some rc \<Rightarrow>
               if \<not> (write_ok e \<and> audio s \<noteq> None)
               then [ChannelSend (cid rc) ''Error saving recording'' (errsend_ok e)]
               else ChannelSend (cid rc) (stop_message a err) (notify_ok e) #
                    (if \<not> notify_ok e
                     then [ChannelSend (cid rc) ''Error saving recording'' (errsend_ok e)]
                     else ChannelSend (cid rc) (''Recording saved as: '' @ filename e) (saved_ok e) #
                          (if saved_ok e then []
                           else [ChannelSend (cid rc) ''Error saving recording'' (errsend_ok e)])))"
    using t x
    by (cases "current_recording_channel s"; cases "left_behind e")
       (auto simp: stop_recording_try_def stop_recording_except_def channel_sends_def Let_def
             split: if_splits)
  then show ?thesis
    unfolding r using w3 by (simp add: channel_sends_append)
qed

subsection \<open>Files\<close>

lemma files_after_append: "files_after (xs @ ys) m = files_after ys (files_after xs m)"
  by (simp add: files_after_def)

lemma files_after_untouched: "(\<And>x m. x \<in> set es \<Longrightarrow> store x m = m) \<Longrightarrow> files_after es m = m"
  unfolding files_after_def by (induction es arbitrary: m) simp_all

lemma files_after_cleanup: "files_after (snd (snd (cleanup_recording e s))) m = m"
  by (rule files_after_untouched) (simp add: cleanup_effects release_calls_kinds)

lemma files_after_channel_send: "files_after (snd (channel_send ch text ok)) m = m"
  by (cases ch) (simp_all add: files_after_def)

lemma files_after_except: "files_after (snd (stop_recording_except e s)) m = m"
  by (simp add: stop_recording_except_def files_after_def split: option.splits)

lemma files_after_try:
  "files_after (snd (stop_recording_try e a err s)) m =
     (if frames s = [] then m
      else if write_ok e \<and> audio s \<noteq> None then m(wav_path e \<mapsto> concat (frames s))
      else case left_behind e of None \<Rightarrow> m | Some d \<Rightarrow> m(wav_path e \<mapsto> d))"
  by (cases "current_recording_channel s"; cases "left_behind e")
     (auto simp: stop_recording_try_def files_after_def Let_def)

lemma files_after_stop:
  assumes "recording s"
  shows "files_after (snd (snd (stop_recording e a err s))) m =
     (if frames s = [] then m
      else if write_ok e \<and> audio s \<noteq> None then m(wav_path e \<mapsto> concat (frames s))
      else case left_behind e of None \<Rightarrow> m | Some d \<Rightarrow> m(wav_path e \<mapsto> d))"
proof -
  from assms obtain c1 es1 c2 es2 c3 s2 es3 where
    t: "stop_recording_try e a err (s\<lparr>recording := False\<rparr>) = (c1, es1)"
    and x: "(if c1 = Raised then stop_recording_except e (s\<lparr>recording := False\<rparr>)
          else (Returned, [])) = (c2, es2)"
    and c: "cleanup_recording e (s\<lparr>recording := False\<rparr>) = (c3, s2, es3)"
    and r: "stop_recording e a err s
         = (if c2 = Raised \<or> c3 = Raised then Raised else Returned, s2, es1 @ es2 @ es3)"
    by (rule stop_recording_parts)
  have f1: "files_after es1 m =
     (if frames s = [] then m
      else if write_ok e \<and> audio s \<noteq> None then m(wav_path e \<mapsto> concat (frames s))
      else case left_behind e of None \<Rightarrow> m | Some d \<Rightarrow> m(wav_path e \<mapsto> d))"
  proof -
    have "files_after (snd (stop_recording_try e a err (s\<lparr>recording := False\<rparr>))) m =
     (if frames s = [] then m
      else if write_ok e \<and> audio s \<noteq> None then m(wav_path e \<mapsto> concat (frames s))
      else case left_behind e of None \<Rightarrow> m | Some d \<Rightarrow> m(wav_path e \<mapsto> d))"
      by (auto simp: files_after_try)
    then show ?thesis by (simp only: t snd_conv)
  qed
  have f2: "\<And>m'. files_after es2 m' = m'"
    using files_after_except [of e "s\<lparr>recording := False\<rparr>"] x
    by (cases "c1 = Raised") (auto simp: files_after_def)
  have f3: "\<And>m'. files_after es3 m' = m'"
    using files_after_cleanup [of e "s\<lparr>recording := False\<rparr>"] c by simp
  show ?thesis
    unfolding r by (simp only: snd_conv files_after_append f1 f2 f3)
qed

subsection \<open>\<^verbatim>\<open>start_recording\<close>\<close>

lemma start_recording_busy: "recording s \<Longrightarrow> start_recording e ch s = (Returned, s, [])"
  by (simp add: start_recording_def)

lemma start_recording_resume_ok:
  "start_ok e \<Longrightarrow> start_recording_resume e ch s = (Returned, active_at ch [], start_calls e ch)"
  by (simp add: start_recording_resume_def start_recording_try_def start_ok_def active_at_def
      start_calls_def Let_def)

lemma start_recording_idle_ok:
  "\<not> recording s \<Longrightarrow> start_ok e \<Longrightarrow>
   start_recording e ch s = (Returned, active_at ch [], start_calls e ch)"
  by (simp add: start_recording_def start_recording_resume_ok)

lemma start_recording_first_call:
  "\<not> recording s \<Longrightarrow>
   take 1 (snd (snd (start_recording e ch s))) = [VoiceConnect (cid ch) (connect_ok e)]"
  by (auto simp: start_recording_def start_recording_resume_def start_recording_try_def Let_def
      split: prod.splits)

text \<open>A start with no other handler during its wait is the start the other handlers call.\<close>

lemma overlap_alone:
  "overlap [Arrive ch, Wake e ch] ((s, []), tr) =
     (case start_recording e ch s of (c, s', es) \<Rightarrow> ((s', []), tr @ es))"
  by (simp add: start_recording_def split: prod.splits)

subsection \<open>Runs\<close>

lemma run_append: "run (xs @ ys) w = run ys (run xs w)"
proof (induction xs arbitrary: w)
  case Nil
  show ?case by simp
next
  case (Cons p xs)
  obtain e ev where p: "p = (e, ev)" by (cases p)
  obtain s tr where w: "w = (s, tr)" by (cases w)
  show ?case unfolding p w by (simp add: Cons split: prod.splits)
qed

lemma run_captured:
  "recording s \<Longrightarrow> stream s \<noteq> None \<Longrightarrow>
   run (captured e ds) (s, tr) =
     (s\<lparr>frames := frames s @ ds\<rparr>, tr @ replicate (length ds) (StreamRead True))"
proof (induction ds arbitrary: s tr)
  case Nil
  show ?case by (simp add: captured_def)
next
  case (Cons d ds)
  have st: "step e (LoopIter (Some d)) s = (Returned, s\<lparr>frames := frames s @ [d]\<rparr>, [StreamRead True])"
    using Cons.prems by (auto simp: record_loop_iter_def)
  have "run (captured e ds) (s\<lparr>frames := frames s @ [d]\<rparr>, tr @ [StreamRead True]) =
        (s\<lparr>frames := frames s @ [d]\<rparr>\<lparr>frames := frames (s\<lparr>frames := frames s @ [d]\<rparr>) @ ds\<rparr>,
         (tr @ [StreamRead True]) @ replicate (length ds) (StreamRead True))"
    using Cons.prems by (intro Cons.IH) simp_all
  then show ?case
    using st by (simp add: captured_def replicate_append_same)
qed

lemma member_count_members: "member_count (ch\<lparr>members := ms\<rparr>) = humans ms"
  by (simp add: member_count_def humans_def)

lemma step_check_idle:
  "\<not> recording s \<Longrightarrow> member_count ch < 3 \<Longrightarrow> check_channel e ch s = (Returned, s, [])"
  by (simp add: check_channel_def)

lemma step_check_start:
  "\<not> recording s \<Longrightarrow> start_ok e \<Longrightarrow> member_count ch \<ge> 3 \<Longrightarrow>
   check_channel e ch s = (Returned, active_at ch [], start_calls e ch)"
  by (simp add: check_channel_def start_recording_idle_ok)

lemma step_check_stop:
  "member_count ch < 3 \<Longrightarrow> cid ch = cid c0 \<Longrightarrow>
   check_channel e ch (active_at c0 fs) = stop_recording e True False (active_at c0 fs)"
  by (simp add: check_channel_def active_at_def)

lemma decisions_append:
  "decisions (xs @ ys) s = decisions xs s @ decisions ys (fst (run xs (s, tr)))"
proof (induction xs arbitrary: s tr)
  case Nil
  show ?case by simp
next
  case (Cons p xs)
  obtain e ev where p: "p = (e, ev)" by (cases p)
  obtain c s' es where st: "step e ev s = (c, s', es)" by (cases "step e ev s")
  show ?case
    unfolding p using Cons [of s' "tr @ es"] st by simp
qed

lemma decisions_captured: "decisions (captured e fs) s = []"
  by (induction fs arbitrary: s) (simp_all add: captured_def)

lemma wave_writes_start_calls: "wave_writes (start_calls e ch) = []"
  by (simp add: wave_writes_def start_calls_def)

lemma wave_writes_reads: "wave_writes (replicate n (StreamRead True)) = []"
  by (induction n) (simp_all add: wave_writes_def)

lemma wave_writes_stop_active_at:
  "wave_writes (snd (snd (stop_recording e a err (active_at ch fs)))) =
     (if fs = [] then [] else [WaveWrite (wav_path e) (concat fs) (write_ok e)])"
  using wave_writes_stop [of "active_at ch fs" e a err] by (simp add: active_at_def)

lemma files_after_start_calls: "files_after (start_calls e ch) m = m"
  by (simp add: files_after_def start_calls_def)

lemma files_after_reads: "files_after (replicate n (StreamRead True)) m = m"
  by (rule files_after_untouched) auto

lemma files_after_stop_active_at:
  "files_after (snd (snd (stop_recording e a err (active_at ch fs)))) m =
     (if fs = [] then m
      else if write_ok e then m(wav_path e \<mapsto> concat fs)
      else case left_behind e of None \<Rightarrow> m | Some d \<Rightarrow> m(wav_path e \<mapsto> d))"
  using files_after_stop [of "active_at ch fs" e a err m] by (simp add: active_at_def)


lemma not_present:
  "current_recording_channel s = Some rc \<Longrightarrow>
   (case author_voice c of
      None \<Rightarrow> True
    | Some v \<Rightarrow> (case vchannel v of None \<Rightarrow> True | Some a \<Rightarrow> cid a \<noteq> cid rc)) \<Longrightarrow>
   \<not> in_recording_channel c s"
  by (auto simp: in_recording_channel_def split: option.splits)

lemma run_session:
  assumes "\<not> recording s" and "start_ok e" and "humans ms \<ge> 3" and "humans ms' < 3"
  shows "run ((e, CheckChannel (ch\<lparr>members := ms\<rparr>)) # captured e0 fs
              @ [(e', CheckChannel (ch\<lparr>members := ms'\<rparr>))]) (s, tr)
         = (fst (snd (stop_recording e' True False (active_at (ch\<lparr>members := ms\<rparr>) fs))),
            tr @ start_calls e (ch\<lparr>members := ms\<rparr>)
               @ replicate (length fs) (StreamRead True)
               @ snd (snd (stop_recording e' True False (active_at (ch\<lparr>members := ms\<rparr>) fs))))"
proof -
  let ?c = "ch\<lparr>members := ms\<rparr>"
  let ?c' = "ch\<lparr>members := ms'\<rparr>"
  have s1: "check_channel e ?c s = (Returned, active_at ?c [], start_calls e ?c)"
    using assms by (simp add: step_check_start member_count_members)
  have cap: "run (captured e0 fs) (active_at ?c [], tr @ start_calls e ?c)
             = (active_at ?c fs, (tr @ start_calls e ?c) @ replicate (length fs) (StreamRead True))"
    using run_captured [of "active_at ?c []" e0 fs "tr @ start_calls e ?c"]
    by (simp add: active_at_def)
  obtain c s' es where sr: "stop_recording e' True False (active_at ?c fs) = (c, s', es)"
    by (cases "stop_recording e' True False (active_at ?c fs)")
  have s2: "check_channel e' ?c' (active_at ?c fs) = (c, s', es)"
    using assms sr by (simp add: step_check_stop member_count_members)
  have "run ((e, CheckChannel ?c) # captured e0 fs @ [(e', CheckChannel ?c')]) (s, tr)
        = run [(e', CheckChannel ?c')] (run (captured e0 fs) (active_at ?c [], tr @ start_calls e ?c))"
    using s1 by (simp add: run_append)
  also have "\<dots> = (s', ((tr @ start_calls e ?c) @ replicate (length fs) (StreamRead True)) @ es)"
    unfolding cap using s2 by simp
  finally show ?thesis using sr by simp
qed

lemma decisions_session:
  assumes "\<not> recording s" and "start_ok e" and "humans ms \<ge> 3" and "humans ms' < 3"
  shows "decisions ((e, CheckChannel (ch\<lparr>members := ms\<rparr>)) # captured e0 fs
              @ [(e', CheckChannel (ch\<lparr>members := ms'\<rparr>))]) s
         = [StartIntent (ch\<lparr>members := ms\<rparr>), StopIntent (ch\<lparr>members := ms'\<rparr>) AutoQuorumLoss]"
proof -
  let ?c = "ch\<lparr>members := ms\<rparr>"
  let ?c' = "ch\<lparr>members := ms'\<rparr>"
  have s1: "check_channel e ?c s = (Returned, active_at ?c [], start_calls e ?c)"
    using assms by (simp add: step_check_start member_count_members)
  have cap: "run (captured e0 fs) (active_at ?c [], [])
             = (active_at ?c fs, replicate (length fs) (StreamRead True))"
    using run_captured [of "active_at ?c []" e0 fs "[]"]
    by (simp add: active_at_def)
  have d1: "quorum_decision 3 (member_count ?c) (session_of s) ?c = StartIntent ?c"
    using assms by (simp add: quorum_decision_def session_of_def member_count_members)
  have d2: "quorum_decision 3 (member_count ?c') (session_of (active_at ?c fs)) ?c'
            = StopIntent ?c' AutoQuorumLoss"
    using assms
    by (simp add: quorum_decision_def session_of_def active_at_def member_count_members)
  have "decisions (captured e0 fs @ [(e', CheckChannel ?c')]) (active_at ?c [])
        = decisions (captured e0 fs) (active_at ?c [])
          @ decisions [(e', CheckChannel ?c')] (fst (run (captured e0 fs) (active_at ?c [], [])))"
    by (rule decisions_append)
  then have "decisions (captured e0 fs @ [(e', CheckChannel ?c')]) (active_at ?c [])
        = [StopIntent ?c' AutoQuorumLoss]"
    by (simp add: decisions_captured cap d2)
  then show ?thesis
    using s1 d1 by simp
qed

section \<open>The claims\<close>

text \<open>
  C1, on the code. Two start intents overlap: the second arrives while the first waits in
  \<^verbatim>\<open>await channel.connect()\<close>, with the flag still down, so both pass the guard. Both
  connect and open a stream; two voice connections and two streams are live at once, and
  the fields keep only the second. With no overlap the second intent meets the raised
  flag and is ignored.
\<close>

theorem overlapping_starts_open_two_sessions:
  "\<not> recording init
   \<and> overlap [Arrive hall, Arrive lounge, Wake nominal hall, Wake nominal lounge] ((init, []), [])
       = ((active_at lounge [], []), start_calls nominal hall @ start_calls nominal lounge)
   \<and> \<not> at_most_one stream_delta 0 (start_calls nominal hall @ start_calls nominal lounge)
   \<and> \<not> at_most_one voice_delta 0 (start_calls nominal hall @ start_calls nominal lounge)
   \<and> overlap [Arrive hall, Wake nominal hall, Arrive lounge] ((init, []), [])
       = ((active_at hall [], []), start_calls nominal hall)
   \<and> start_recording nominal lounge (active_at hall []) = (Returned, active_at hall [], [])"
  by (simp add: example_defs operation_defs start_calls_def Let_def)







text \<open>
  C3, as stated, fails on an active session whose buffer is empty: two stops in succession
  write no file at all.
\<close>

theorem stop_twice_empty_buffer_counterexample:
  "recording (active_at lounge [])
   \<and> wave_writes
        (snd (snd (stop_recording nominal False False (active_at lounge [])))
         @ snd (snd (stop_recording nominal False False
                  (fst (snd (stop_recording nominal False False (active_at lounge []))))))) = []"
  by (simp add: example_defs operation_defs wave_writes_def)

text \<open>
  C3, amended. A stop without an active session returns at once: no field changes, no call
  is made. Two stops in succession on an active session make at most one file write
  between them, one when the buffer held frames and none when it was empty, and the second
  stop returns at once.
\<close>

theorem stop_recording_twice:
  "(\<not> recording s \<longrightarrow> stop_recording e a err s = (Returned, s, []))
   \<and> (recording s \<longrightarrow>
        stop_recording e' a' err' (fst (snd (stop_recording e a err s)))
          = (Returned, fst (snd (stop_recording e a err s)), [])
        \<and> length (wave_writes
             (snd (snd (stop_recording e a err s))
              @ snd (snd (stop_recording e' a' err' (fst (snd (stop_recording e a err s)))))))
          = (if frames s = [] then 0 else 1))"
proof -
  have second: "stop_recording e' a' err' (fst (snd (stop_recording e a err s)))
          = (Returned, fst (snd (stop_recording e a err s)), [])"
    using stop_recording_flag_down [of e a err s] by (rule stop_recording_idle)
  show ?thesis
    by (simp add: stop_recording_idle second wave_writes_stop)
qed

theorem stop_recording_twice_witness:
  "\<not> recording init \<and> stop_recording nominal True False init = (Returned, init, [])
   \<and> recording (active_at lounge [[1, 2], [3]])
   \<and> stop_recording nominal False True
        (fst (snd (stop_recording nominal True False (active_at lounge [[1, 2], [3]]))))
      = (Returned, init, [])
   \<and> length (wave_writes
        (snd (snd (stop_recording nominal True False (active_at lounge [[1, 2], [3]])))
         @ snd (snd (stop_recording nominal False True
             (fst (snd (stop_recording nominal True False (active_at lounge [[1, 2], [3]])))))))) = 1"
  using stop_recording_twice [of init nominal True False nominal False True]
        stop_recording_twice [of "active_at lounge [[1, 2], [3]]" nominal True False nominal False True]
  by (simp add: example_defs operation_defs wave_writes_def)




text \<open>
  C7. During a session, the stop command of a requester who is in no voice channel, or in
  one other than the session's, and the force-stop command of a requester who is not an
  administrator, answer with their denial and nothing else: every field is as before and
  no other call is made. Without a session both commands answer that nothing is recorded.
\<close>

theorem unauthorised_stop_rejected:
  "(recording s \<and> current_recording_channel s = Some rc
      \<and> (case author_voice c of
            None \<Rightarrow> True
          | Some v \<Rightarrow> (case vchannel v of None \<Rightarrow> True | Some a \<Rightarrow> cid a \<noteq> cid rc))
      \<longrightarrow> stop e c s =
            (if reply_ok e then Returned else Raised, s,
             [CtxSend ''You must be in the recording channel to stop it'' (reply_ok e)]))
   \<and> (recording s \<and> \<not> author_administrator c
      \<longrightarrow> force_stop e c s =
            (if reply_ok e then Returned else Raised, s,
             [CtxSend ''Only administrators can force stop recordings'' (reply_ok e)]))
   \<and> (\<not> recording s
      \<longrightarrow> stop e c s =
            (if reply_ok e then Returned else Raised, s,
             [CtxSend ''Not currently recording!'' (reply_ok e)])
        \<and> force_stop e c s =
            (if reply_ok e then Returned else Raised, s,
             [CtxSend ''Not currently recording!'' (reply_ok e)]))"
proof -
  have a: "recording s \<and> current_recording_channel s = Some rc
      \<and> (case author_voice c of
            None \<Rightarrow> True
          | Some v \<Rightarrow> (case vchannel v of None \<Rightarrow> True | Some a \<Rightarrow> cid a \<noteq> cid rc))
      \<longrightarrow> stop e c s =
            (if reply_ok e then Returned else Raised, s,
             [CtxSend ''You must be in the recording channel to stop it'' (reply_ok e)])"
    using not_present [of s rc c] by (auto simp: stop_def ctx_send_def)
  have b: "recording s \<and> \<not> author_administrator c
      \<longrightarrow> force_stop e c s =
            (if reply_ok e then Returned else Raised, s,
             [CtxSend ''Only administrators can force stop recordings'' (reply_ok e)])"
    by (simp add: force_stop_def ctx_send_def)
  have d: "\<not> recording s
      \<longrightarrow> stop e c s =
            (if reply_ok e then Returned else Raised, s,
             [CtxSend ''Not currently recording!'' (reply_ok e)])
        \<and> force_stop e c s =
            (if reply_ok e then Returned else Raised, s,
             [CtxSend ''Not currently recording!'' (reply_ok e)])"
    by (simp add: stop_def force_stop_def ctx_send_def)
  show ?thesis using a b d by blast
qed

theorem unauthorised_stop_rejected_witness:
  "recording (active_at lounge [[1]])
   \<and> current_recording_channel (active_at lounge [[1]]) = Some lounge
   \<and> author_voice outsider = Some \<lparr>vchannel = Some hall\<rparr> \<and> cid hall \<noteq> cid lounge
   \<and> \<not> author_administrator outsider
   \<and> stop nominal outsider (active_at lounge [[1]]) =
       (Returned, active_at lounge [[1]],
        [CtxSend ''You must be in the recording channel to stop it'' True])
   \<and> force_stop nominal outsider (active_at lounge [[1]]) =
       (Returned, active_at lounge [[1]],
        [CtxSend ''Only administrators can force stop recordings'' True])
   \<and> \<not> recording init
   \<and> stop nominal outsider init = (Returned, init, [CtxSend ''Not currently recording!'' True])"
  using unauthorised_stop_rejected [of "active_at lounge [[1]]" lounge outsider nominal]
        unauthorised_stop_rejected [of init lounge outsider nominal]
  by (simp add: example_defs)

text \<open>
  C4. On a membership change of channel C with \<open>n\<close> members that are not bots:
  with \<open>n \<ge> 3\<close> and no session active, \<^verbatim>\<open>check_channel\<close> calls
  \<^verbatim>\<open>start_recording\<close> for C (whose first call is the voice connection to C); with
  \<open>n < 3\<close> and the active session's channel equal to C, it calls \<^verbatim>\<open>stop_recording\<close>
  with the quorum-loss flag; in every other case no field changes and no call is made.
  This is the specification's rule with threshold 3.
\<close>

theorem check_channel_rule:
  "check_channel e ch s = apply_intent e (quorum_decision 3 (member_count ch) (session_of s) ch) s
   \<and> member_count ch = length (filter (\<lambda>m. \<not> m_bot m) (members ch))
   \<and> (member_count ch \<ge> 3 \<and> \<not> recording s
        \<longrightarrow> check_channel e ch s = start_recording e ch s
          \<and> take 1 (snd (snd (start_recording e ch s))) = [VoiceConnect (cid ch) (connect_ok e)])
   \<and> (member_count ch < 3 \<and> recording s \<and> py_eq (current_recording_channel s) (Some ch)
        \<longrightarrow> check_channel e ch s = stop_recording e True False s)
   \<and> (\<not> (member_count ch \<ge> 3 \<and> \<not> recording s)
      \<and> \<not> (member_count ch < 3 \<and> recording s \<and> py_eq (current_recording_channel s) (Some ch))
        \<longrightarrow> check_channel e ch s = (Returned, s, []))"
proof -
  have a: "check_channel e ch s
           = apply_intent e (quorum_decision 3 (member_count ch) (session_of s) ch) s"
  proof (cases "recording s")
    case False
    then show ?thesis
      by (simp add: check_channel_def quorum_decision_def session_of_def)
  next
    case True
    show ?thesis
    proof (cases "current_recording_channel s")
      case None
      then show ?thesis
        using True
        by (simp add: check_channel_def quorum_decision_def session_of_def start_recording_busy)
    next
      case (Some a)
      then show ?thesis
        using True
        by (simp add: check_channel_def quorum_decision_def session_of_def)
    qed
  qed
  have b: "member_count ch \<ge> 3 \<and> \<not> recording s
        \<longrightarrow> check_channel e ch s = start_recording e ch s
          \<and> take 1 (snd (snd (start_recording e ch s))) = [VoiceConnect (cid ch) (connect_ok e)]"
    using start_recording_first_call [of s e ch] by (simp add: check_channel_def)
  have c: "member_count ch < 3 \<and> recording s \<and> py_eq (current_recording_channel s) (Some ch)
        \<longrightarrow> check_channel e ch s = stop_recording e True False s"
    by (simp add: check_channel_def)
  have d: "\<not> (member_count ch \<ge> 3 \<and> \<not> recording s)
      \<and> \<not> (member_count ch < 3 \<and> recording s \<and> py_eq (current_recording_channel s) (Some ch))
        \<longrightarrow> check_channel e ch s = (Returned, s, [])"
    by (simp add: check_channel_def)
  show ?thesis using a b c d by (simp add: member_count_def)
qed

theorem check_channel_rule_witness:
  "member_count hall \<ge> 3 \<and> \<not> recording init
   \<and> check_channel nominal hall init
       = (Returned, active_at hall [],
          [VoiceConnect 8 True, AudioInit True, StreamOpen True,
           ChannelSend 8 start_message True, CreateTask RecordLoop])
   \<and> member_count (lounge\<lparr>members := [person 1, bot_in_lounge, person 2, bot_in_lounge]\<rparr>) < 3
   \<and> recording (active_at lounge [])
   \<and> py_eq (current_recording_channel (active_at lounge []))
        (Some (lounge\<lparr>members := [person 1, bot_in_lounge, person 2, bot_in_lounge]\<rparr>))
   \<and> check_channel nominal (lounge\<lparr>members := [person 1, bot_in_lounge, person 2, bot_in_lounge]\<rparr>)
        (active_at lounge [])
       = stop_recording nominal True False (active_at lounge [])
   \<and> check_channel nominal lounge (active_at hall []) = (Returned, active_at hall [], [])
   \<and> check_channel nominal hall (active_at hall []) = (Returned, active_at hall [], [])
   \<and> check_channel nominal lounge init = (Returned, init, [])"
  using check_channel_rule [of nominal hall init]
        check_channel_rule
          [of nominal "lounge\<lparr>members := [person 1, bot_in_lounge, person 2, bot_in_lounge]\<rparr>"
              "active_at lounge []"]
        check_channel_rule [of nominal lounge "active_at hall []"]
        check_channel_rule [of nominal hall "active_at hall []"]
        check_channel_rule [of nominal lounge init]
  by (simp add: example_defs operation_defs quorum_decision_def session_of_def)

text \<open>
  C8, as stated, fails in three ways. A first stop on a session whose buffer is empty
  sends nothing to the channel. When the flush raises, the only message is the one of the
  \<^verbatim>\<open>except\<close> block, which does not depend on the reason. When a release call raises,
  the handles, the channel and the frames stay set.
\<close>

theorem stop_notification_counterexample:
  "recording (active_at lounge [])
   \<and> channel_sends (snd (snd (stop_recording nominal True False (active_at lounge [])))) = []
   \<and> recording (active_at lounge [[1]])
   \<and> channel_sends (snd (snd (stop_recording (nominal\<lparr>write_ok := False\<rparr>) False False
         (active_at lounge [[1]]))))
       = [ChannelSend 7 ''Error saving recording'' True]
   \<and> fst (snd (stop_recording stuck_stream False False (active_at lounge [[1]])))
       = \<lparr>recording = False, voice_client = Some (VoiceClient 7),
          current_recording_channel = Some lounge, frames = [[1]],
          audio = Some PyAudio, stream = Some PaStream\<rparr>"
  by (simp add: example_defs operation_defs channel_sends_def)

text \<open>
  C8, amended. A first stop on an active session lowers the flag, writes the buffer to a
  new file if it holds frames, and ends with the cleanup step. When the release calls
  return, the stream has been stopped and closed and the voice client disconnected, and
  every field is at its initial value, whether or not the flush succeeded. With frames in
  the buffer and a flush that succeeds, the first message to the recording channel is the
  one for the reason (quorum loss, error, or manual); when the flush raises, the one
  message is ``Error saving recording''.
\<close>

theorem first_stop_call:
  assumes "recording s"
  shows "\<not> recording (fst (snd (stop_recording e auto_stopped error s)))
    \<and> wave_writes (snd (snd (stop_recording e auto_stopped error s))) =
        (if frames s = [] then []
         else [WaveWrite (wav_path e) (concat (frames s)) (write_ok e \<and> audio s \<noteq> None)])
    \<and> ((stream s \<noteq> None \<longrightarrow> stop_stream_ok e \<and> close_ok e)
        \<and> (audio s \<noteq> None \<longrightarrow> terminate_ok e)
        \<and> (voice_client s \<noteq> None \<longrightarrow> disconnect_ok e)
      \<longrightarrow> (\<exists>c pre. stop_recording e auto_stopped error s
             = (c,
                \<lparr>recording = False, voice_client = None, current_recording_channel = None,
                 frames = [], audio = None, stream = None\<rparr>,
                pre @
                (if stream s \<noteq> None then [StreamStop True, StreamClose True] else []) @
                (if audio s \<noteq> None then [AudioTerminate True] else []) @
                (if voice_client s \<noteq> None then [VoiceDisconnect True] else []))))
    \<and> (frames s \<noteq> [] \<and> write_ok e \<and> audio s \<noteq> None \<and> current_recording_channel s = Some rc
         \<longrightarrow> take 1 (channel_sends (snd (snd (stop_recording e auto_stopped error s))))
              = [ChannelSend (cid rc) (stop_message auto_stopped error) (notify_ok e)])
    \<and> (frames s \<noteq> [] \<and> \<not> (write_ok e \<and> audio s \<noteq> None) \<and> current_recording_channel s = Some rc
         \<longrightarrow> channel_sends (snd (snd (stop_recording e auto_stopped error s)))
              = [ChannelSend (cid rc) ''Error saving recording'' (errsend_ok e)])
    \<and> stop_message True error = ''Recording stopped - less than 3 members in channel''
    \<and> stop_message False True = ''Recording stopped due to an error''
    \<and> stop_message False False = ''Recording stopped manually''"
proof -
  have a: "\<not> recording (fst (snd (stop_recording e auto_stopped error s)))"
    by (rule stop_recording_flag_down)
  have c: "wave_writes (snd (snd (stop_recording e auto_stopped error s))) =
        (if frames s = [] then []
         else [WaveWrite (wav_path e) (concat (frames s)) (write_ok e \<and> audio s \<noteq> None)])"
    using assms by (rule wave_writes_stop)
  have d: "(stream s \<noteq> None \<longrightarrow> stop_stream_ok e \<and> close_ok e)
        \<and> (audio s \<noteq> None \<longrightarrow> terminate_ok e)
        \<and> (voice_client s \<noteq> None \<longrightarrow> disconnect_ok e)
      \<longrightarrow> (\<exists>c pre. stop_recording e auto_stopped error s
             = (c,
                \<lparr>recording = False, voice_client = None, current_recording_channel = None,
                 frames = [], audio = None, stream = None\<rparr>,
                pre @
                (if stream s \<noteq> None then [StreamStop True, StreamClose True] else []) @
                (if audio s \<noteq> None then [AudioTerminate True] else []) @
                (if voice_client s \<noteq> None then [VoiceDisconnect True] else [])))"
    using stop_recording_return [OF assms, of e auto_stopped error]
    by (simp add: releases_return_def released_def init_def)
  have g: "frames s \<noteq> [] \<and> write_ok e \<and> audio s \<noteq> None \<and> current_recording_channel s = Some rc
         \<longrightarrow> take 1 (channel_sends (snd (snd (stop_recording e auto_stopped error s))))
              = [ChannelSend (cid rc) (stop_message auto_stopped error) (notify_ok e)]"
    using assms by (simp add: channel_sends_stop)
  have h: "frames s \<noteq> [] \<and> \<not> (write_ok e \<and> audio s \<noteq> None) \<and> current_recording_channel s = Some rc
         \<longrightarrow> channel_sends (snd (snd (stop_recording e auto_stopped error s)))
              = [ChannelSend (cid rc) ''Error saving recording'' (errsend_ok e)]"
    using assms by (simp add: channel_sends_stop)
  have i: "stop_message True error = ''Recording stopped - less than 3 members in channel''
    \<and> stop_message False True = ''Recording stopped due to an error''
    \<and> stop_message False False = ''Recording stopped manually''"
    by (simp add: stop_message_def)
  show ?thesis using a c d g h i by blast
qed

theorem first_stop_call_witness:
  "recording (active_at lounge [[1, 2], [3]])
   \<and> frames (active_at lounge [[1, 2], [3]]) \<noteq> [] \<and> write_ok nominal
   \<and> audio (active_at lounge [[1, 2], [3]]) \<noteq> None
   \<and> stream (active_at lounge [[1, 2], [3]]) \<noteq> None
   \<and> voice_client (active_at lounge [[1, 2], [3]]) \<noteq> None
   \<and> stop_stream_ok nominal \<and> close_ok nominal \<and> terminate_ok nominal \<and> disconnect_ok nominal
   \<and> current_recording_channel (active_at lounge [[1, 2], [3]]) = Some lounge
   \<and> stop_recording nominal False True (active_at lounge [[1, 2], [3]])
       = (Returned,
          \<lparr>recording = False, voice_client = None, current_recording_channel = None,
           frames = [], audio = None, stream = None\<rparr>,
          [WaveWrite ''recordings/nouncil_recording_20240101_120000.wav'' [1, 2, 3] True,
           ChannelSend 7 ''Recording stopped due to an error'' True,
           ChannelSend 7 ''Recording saved as: nouncil_recording_20240101_120000'' True,
           StreamStop True, StreamClose True, AudioTerminate True, VoiceDisconnect True])
   \<and> \<not> (write_ok failing_disk \<and> audio (active_at lounge [[1, 2], [3]]) \<noteq> None)
   \<and> channel_sends (snd (snd (stop_recording failing_disk False True (active_at lounge [[1, 2], [3]]))))
       = [ChannelSend 7 ''Error saving recording'' False]"
  using first_stop_call [of "active_at lounge [[1, 2], [3]]" nominal False True lounge]
        first_stop_call [of "active_at lounge [[1, 2], [3]]" failing_disk False True lounge]
  by (simp add: example_defs operation_defs channel_sends_def)

text \<open>
  C9, on the code: leaving \<^verbatim>\<open>main\<close> with a session active makes no call and leaves the
  session as it is. \<^verbatim>\<open>cog_unload\<close>, were it called, would schedule the stop as a task
  and return with the session still active and nothing written.
\<close>

theorem shutdown_issues_no_stop:
  "recording (active_at lounge [[1, 2]])
   \<and> main_exit (active_at lounge [[1, 2]]) = (active_at lounge [[1, 2]], [])
   \<and> cog_unload (active_at lounge [[1, 2]]) = (active_at lounge [[1, 2]], [CreateTask StopRecording])
   \<and> wave_writes (snd (cog_unload (active_at lounge [[1, 2]]))) = []"
  by (simp add: main_exit_def cog_unload_def active_at_def wave_writes_def)

text \<open>
  C5, as stated, fails on its last clause. The six membership events alone give the
  decisions the claim lists, but no file: both sessions end with an empty buffer. With a
  chunk read in each session and both stops in the same second, the two writes go to the
  same path and one file is left.
\<close>

theorem six_events_counterexample:
  "decisions six_events init
     = [NoIntent, NoIntent,
        StartIntent (lounge\<lparr>members := [person 1, person 2, person 3]\<rparr>),
        StopIntent (lounge\<lparr>members := [person 1, person 2]\<rparr>) AutoQuorumLoss,
        StartIntent (lounge\<lparr>members := [person 1, person 2, person 3, person 4]\<rparr>),
        StopIntent (lounge\<lparr>members := [person 1]\<rparr>) AutoQuorumLoss]
   \<and> wave_writes (snd (run six_events (init, []))) = []
   \<and> dom (files_after (snd (run six_events (init, []))) Map.empty) = {}
   \<and> dom (files_after (snd (run (scenario lounge six_nominal nominal [[1]] [[2]]) (init, [])))
           Map.empty)
       = {''recordings/nouncil_recording_20240101_120000.wav''}"
  by (simp add: scenario_defs example_defs operation_defs)

text \<open>
  C5, amended. With occupant counts 1, 2, 3, 2, 4, 1 on one channel, starting without a
  session, both starts succeeding and the record loop reading \<open>fs1\<close> in the first session
  and \<open>fs2\<close> in the second, the decisions are: none, none, start at the third event,
  quorum-loss stop at the fourth, start at the fifth, quorum-loss stop at the sixth. The
  run is two whole sessions, each started, read and stopped, and ends without a session
  when the release calls of the last stop return. A session writes a file when its buffer
  holds frames; two files are left when both buffers held frames, both writes succeeded
  and the two paths differ.
\<close>

theorem quorum_scenario:
  assumes "humans m1 = 1" and "humans m2 = 2" and "humans m3 = 3"
    and "humans m4 = 2" and "humans m5 = 4" and "humans m6 = 1"
    and "start_ok e3" and "start_ok e5"
  shows "decisions (scenario ch [(e1, m1), (e2, m2), (e3, m3), (e4, m4), (e5, m5), (e6, m6)] e0 fs1 fs2)
           init
         = [NoIntent, NoIntent,
            StartIntent (ch\<lparr>members := m3\<rparr>), StopIntent (ch\<lparr>members := m4\<rparr>) AutoQuorumLoss,
            StartIntent (ch\<lparr>members := m5\<rparr>), StopIntent (ch\<lparr>members := m6\<rparr>) AutoQuorumLoss]
    \<and> snd (run (scenario ch [(e1, m1), (e2, m2), (e3, m3), (e4, m4), (e5, m5), (e6, m6)] e0 fs1 fs2)
          (init, []))
       = start_calls e3 (ch\<lparr>members := m3\<rparr>) @ replicate (length fs1) (StreamRead True)
          @ snd (snd (stop_recording e4 True False (active_at (ch\<lparr>members := m3\<rparr>) fs1)))
          @ start_calls e5 (ch\<lparr>members := m5\<rparr>) @ replicate (length fs2) (StreamRead True)
          @ snd (snd (stop_recording e6 True False (active_at (ch\<lparr>members := m5\<rparr>) fs2)))
    \<and> \<not> recording (fst (run (scenario ch [(e1, m1), (e2, m2), (e3, m3), (e4, m4), (e5, m5), (e6, m6)]
                                e0 fs1 fs2) (init, [])))
    \<and> (stop_stream_ok e6 \<and> close_ok e6 \<and> terminate_ok e6 \<and> disconnect_ok e6
         \<longrightarrow> fst (run (scenario ch [(e1, m1), (e2, m2), (e3, m3), (e4, m4), (e5, m5), (e6, m6)]
                         e0 fs1 fs2) (init, [])) = init)
    \<and> wave_writes (snd (run (scenario ch [(e1, m1), (e2, m2), (e3, m3), (e4, m4), (e5, m5), (e6, m6)]
                               e0 fs1 fs2) (init, [])))
       = (if fs1 = [] then [] else [WaveWrite (wav_path e4) (concat fs1) (write_ok e4)])
         @ (if fs2 = [] then [] else [WaveWrite (wav_path e6) (concat fs2) (write_ok e6)])
    \<and> (fs1 \<noteq> [] \<and> fs2 \<noteq> [] \<and> write_ok e4 \<and> write_ok e6 \<and> wav_path e4 \<noteq> wav_path e6
         \<longrightarrow> card (dom (files_after
                 (snd (run (scenario ch [(e1, m1), (e2, m2), (e3, m3), (e4, m4), (e5, m5), (e6, m6)]
                             e0 fs1 fs2) (init, []))) Map.empty)) = 2)"
proof -
  let ?evs = "scenario ch [(e1, m1), (e2, m2), (e3, m3), (e4, m4), (e5, m5), (e6, m6)] e0 fs1 fs2"
  let ?c = "\<lambda>ms. ch\<lparr>members := ms\<rparr>"
  let ?pre = "[(e1, CheckChannel (?c m1)), (e2, CheckChannel (?c m2))]"
  let ?S1 = "(e3, CheckChannel (?c m3)) # captured e0 fs1 @ [(e4, CheckChannel (?c m4))]"
  let ?S2 = "(e5, CheckChannel (?c m5)) # captured e0 fs2 @ [(e6, CheckChannel (?c m6))]"
  let ?s4 = "fst (snd (stop_recording e4 True False (active_at (?c m3) fs1)))"
  let ?s6 = "fst (snd (stop_recording e6 True False (active_at (?c m5) fs2)))"
  let ?T1 = "start_calls e3 (?c m3) @ replicate (length fs1) (StreamRead True)
             @ snd (snd (stop_recording e4 True False (active_at (?c m3) fs1)))"
  let ?T2 = "start_calls e5 (?c m5) @ replicate (length fs2) (StreamRead True)
             @ snd (snd (stop_recording e6 True False (active_at (?c m5) fs2)))"
  have shape: "?evs = ?pre @ ?S1 @ ?S2"
    by (simp add: scenario_def membership_events_def)
  have idle: "\<not> recording init" by (simp add: init_def)
  have idle4: "\<not> recording ?s4" by (rule stop_recording_flag_down)
  have idle6: "\<not> recording ?s6" by (rule stop_recording_flag_down)
  have p1: "check_channel e1 (?c m1) init = (Returned, init, [])"
    using assms idle by (simp add: step_check_idle member_count_members)
  have p2: "check_channel e2 (?c m2) init = (Returned, init, [])"
    using assms idle by (simp add: step_check_idle member_count_members)
  have rpre: "run ?pre (init, []) = (init, [])"
    using p1 p2 by simp
  have r1: "run ?S1 (init, []) = (?s4, ?T1)"
    using run_session [OF idle, of e3 m3 m4 ch e0 fs1 e4 "[]"] assms by simp
  have r2: "run ?S2 (?s4, ?T1) = (?s6, ?T1 @ ?T2)"
    using run_session [OF idle4, of e5 m5 m6 ch e0 fs2 e6 ?T1] assms by simp
  have r: "run ?evs (init, []) = (?s6, ?T1 @ ?T2)"
    unfolding shape by (simp only: run_append rpre r1 r2)
  have dpre: "decisions ?pre init = [NoIntent, NoIntent]"
    using assms p1 p2
    by (simp add: quorum_decision_def session_of_def init_def member_count_members)
  have d1: "decisions ?S1 init = [StartIntent (?c m3), StopIntent (?c m4) AutoQuorumLoss]"
    using decisions_session [OF idle, of e3 m3 m4 ch e0 fs1 e4] assms by simp
  have d2: "decisions ?S2 ?s4 = [StartIntent (?c m5), StopIntent (?c m6) AutoQuorumLoss]"
    using decisions_session [OF idle4, of e5 m5 m6 ch e0 fs2 e6] assms by simp
  have "decisions (?pre @ ?S1 @ ?S2) init
        = decisions ?pre init @ decisions (?S1 @ ?S2) (fst (run ?pre (init, [])))"
    by (rule decisions_append)
  also have "decisions (?S1 @ ?S2) (fst (run ?pre (init, [])))
        = decisions ?S1 init @ decisions ?S2 (fst (run ?S1 (init, [])))"
    unfolding rpre fst_conv by (rule decisions_append)
  finally have d: "decisions ?evs init
        = [NoIntent, NoIntent,
           StartIntent (?c m3), StopIntent (?c m4) AutoQuorumLoss,
           StartIntent (?c m5), StopIntent (?c m6) AutoQuorumLoss]"
    unfolding shape by (simp only: dpre d1 d2 r1 fst_conv append.simps)
  have fin: "stop_stream_ok e6 \<and> close_ok e6 \<and> terminate_ok e6 \<and> disconnect_ok e6
         \<longrightarrow> ?s6 = init"
    using stop_recording_state [of "active_at (?c m5) fs2" e6 True False]
    by (simp add: releases_return_def active_at_def)
  have w: "wave_writes (?T1 @ ?T2)
       = (if fs1 = [] then [] else [WaveWrite (wav_path e4) (concat fs1) (write_ok e4)])
         @ (if fs2 = [] then [] else [WaveWrite (wav_path e6) (concat fs2) (write_ok e6)])"
    by (simp only: wave_writes_append wave_writes_start_calls wave_writes_reads
        wave_writes_stop_active_at append.simps)
  have f: "fs1 \<noteq> [] \<and> fs2 \<noteq> [] \<and> write_ok e4 \<and> write_ok e6 \<and> wav_path e4 \<noteq> wav_path e6
         \<longrightarrow> card (dom (files_after (?T1 @ ?T2) Map.empty)) = 2"
  proof
    assume h: "fs1 \<noteq> [] \<and> fs2 \<noteq> [] \<and> write_ok e4 \<and> write_ok e6 \<and> wav_path e4 \<noteq> wav_path e6"
    have "files_after (?T1 @ ?T2) Map.empty
          = [wav_path e4 \<mapsto> concat fs1, wav_path e6 \<mapsto> concat fs2]"
      using h
      by (simp add: files_after_append files_after_start_calls files_after_reads
          files_after_stop_active_at)
    then have "dom (files_after (?T1 @ ?T2) Map.empty) = {wav_path e4, wav_path e6}"
      by auto
    then show "card (dom (files_after (?T1 @ ?T2) Map.empty)) = 2"
      using h by simp
  qed
  show ?thesis
    unfolding r fst_conv snd_conv using d idle6 fin w f by (simp only: simp_thms append_assoc)
qed

theorem quorum_scenario_witness:
  "humans [person 1] = 1 \<and> humans [person 1, person 2] = 2
   \<and> humans [person 1, person 2, person 3] = 3
   \<and> humans [person 1, person 2, person 3, person 4] = 4
   \<and> start_ok nominal
   \<and> decisions (scenario lounge six_timed nominal [[1, 2], [3]] [[4]]) init
     = [NoIntent, NoIntent,
        StartIntent (lounge\<lparr>members := [person 1, person 2, person 3]\<rparr>),
        StopIntent (lounge\<lparr>members := [person 1, person 2]\<rparr>) AutoQuorumLoss,
        StartIntent (lounge\<lparr>members := [person 1, person 2, person 3, person 4]\<rparr>),
        StopIntent (lounge\<lparr>members := [person 1]\<rparr>) AutoQuorumLoss]
   \<and> fst (run (scenario lounge six_timed nominal [[1, 2], [3]] [[4]]) (init, [])) = init
   \<and> wave_writes (snd (run (scenario lounge six_timed nominal [[1, 2], [3]] [[4]]) (init, [])))
     = [WaveWrite ''recordings/nouncil_recording_20240101_120000.wav'' [1, 2, 3] True,
        WaveWrite ''recordings/nouncil_recording_20240101_120500.wav'' [4] True]
   \<and> card (dom (files_after
        (snd (run (scenario lounge six_timed nominal [[1, 2], [3]] [[4]]) (init, []))) Map.empty))
     = 2"
proof -
  have h1: "humans [person 1] = 1" by (simp add: humans_def person_def)
  have h2: "humans [person 1, person 2] = 2" by (simp add: humans_def person_def)
  have h3: "humans [person 1, person 2, person 3] = 3" by (simp add: humans_def person_def)
  have h5: "humans [person 1, person 2, person 3, person 4] = 4"
    by (simp add: humans_def person_def)
  have ok: "start_ok nominal" by (simp add: start_ok_def nominal_def)
  note q = quorum_scenario [OF h1 h2 h3 h2 h5 h1 ok ok,
      of lounge nominal nominal nominal "nominal\<lparr>now := ''20240101_120500''\<rparr>" nominal
         "[[1, 2], [3]]" "[[4]]"]
  have paths: "wav_path nominal \<noteq> wav_path (nominal\<lparr>now := ''20240101_120500''\<rparr>)"
    by (simp add: wav_path_def path_join_def filename_def nominal_def)
  have w: "write_ok nominal \<and> write_ok (nominal\<lparr>now := ''20240101_120500''\<rparr>)"
    by (simp add: nominal_def)
  have rel: "stop_stream_ok (nominal\<lparr>now := ''20240101_120500''\<rparr>)
     \<and> close_ok (nominal\<lparr>now := ''20240101_120500''\<rparr>)
     \<and> terminate_ok (nominal\<lparr>now := ''20240101_120500''\<rparr>)
     \<and> disconnect_ok (nominal\<lparr>now := ''20240101_120500''\<rparr>)"
    by (simp add: nominal_def)
  have p: "wav_path nominal = ''recordings/nouncil_recording_20240101_120000.wav''
     \<and> wav_path (nominal\<lparr>now := ''20240101_120500''\<rparr>)
         = ''recordings/nouncil_recording_20240101_120500.wav''"
    by (simp add: wav_path_def path_join_def filename_def nominal_def)
  let ?S = "scenario lounge
       [(nominal, [person 1]), (nominal, [person 1, person 2]),
        (nominal, [person 1, person 2, person 3]), (nominal, [person 1, person 2]),
        (nominal, [person 1, person 2, person 3, person 4]),
        (nominal\<lparr>now := ''20240101_120500''\<rparr>, [person 1])]
       nominal [[1, 2], [3]] [[4]]"
  note q1 = q [THEN conjunct1]
  note q4 = q [THEN conjunct2, THEN conjunct2, THEN conjunct2, THEN conjunct1]
  note q5 = q [THEN conjunct2, THEN conjunct2, THEN conjunct2, THEN conjunct2, THEN conjunct1]
  note q6 = q [THEN conjunct2, THEN conjunct2, THEN conjunct2, THEN conjunct2, THEN conjunct2]
  have g2: "fst (run ?S (init, [])) = init"
    using q4 rel by blast
  have g3: "wave_writes (snd (run ?S (init, [])))
     = [WaveWrite ''recordings/nouncil_recording_20240101_120000.wav'' [1, 2, 3] True,
        WaveWrite ''recordings/nouncil_recording_20240101_120500.wav'' [4] True]"
    unfolding q5 using p w by simp
  have g4: "card (dom (files_after (snd (run ?S (init, []))) Map.empty)) = 2"
    using q6 paths w by simp
  show ?thesis
    unfolding six_timed_def using h1 h2 h3 h5 ok q1 g2 g3 g4 by blast
qed


end
